theory Spec2Isabelle
  imports Main "HOL-Library.Sublist"
begin

section \<open>Strings\<close>

text \<open>
  The strings of \<^verbatim>\<open>server.js\<close> are modelled as \<^typ>\<open>string\<close>: a list of 8-bit
  characters, each read as the code unit of that number (U+0000 to U+00FF, which holds
  the accented letters of the keyword tables: \<open>0xE1\<close> is a-acute, \<open>0xE3\<close> a-tilde,
  \<open>0xF3\<close> o-acute). On that range \<^verbatim>\<open>String.prototype.toLowerCase\<close> works character by
  character: \<open>A\<close>..\<open>Z\<close> and \<open>0xC0\<close>..\<open>0xDE\<close> (without the multiplication sign
  \<open>0xD7\<close>) move up by 32, every other character stays.
\<close>

definition lower_char :: "char \<Rightarrow> char" where
  "lower_char c =
     (let n = (of_char c :: nat)
      in if (65 \<le> n \<and> n \<le> 90) \<or> (192 \<le> n \<and> n \<le> 222 \<and> n \<noteq> 215)
         then char_of (n + 32) else c)"

definition toLowerCase :: "string \<Rightarrow> string" where
  "toLowerCase s = map lower_char s"

text \<open>\<^verbatim>\<open>s.includes(x)\<close>: \<open>x\<close> occurs in \<open>s\<close> as a contiguous run of characters.\<close>

definition str_includes :: "string \<Rightarrow> string \<Rightarrow> bool" where
  "str_includes s x = sublist x s"

section \<open>Data model\<close>

text \<open>
  \<^verbatim>\<open>dedupe\<close> reads only \<^verbatim>\<open>title\<close> and \<^verbatim>\<open>url\<close> of an item and passes the item on
  whole, so it is defined on every extension of the record \<open>item\<close>. A field that is
  missing in JavaScript reads as \<^verbatim>\<open>undefined\<close>, which \<^verbatim>\<open>(it.url || "")\<close> turns into
  the empty string: the empty string stands for it here.
\<close>

record item =
  title :: string
  url :: string

record raw_result = item +
  description :: string

record tag_lists =
  techs :: "string list"
  cities :: "string list"

record tagged_result = raw_result +
  tags :: tag_lists
  score :: int

section \<open>Deduplicator\<close>

text \<open>
  The \<^verbatim>\<open>for\<close> loop of \<^verbatim>\<open>dedupe\<close> (lines 65 to 81), with its three mutable variables
  \<^verbatim>\<open>seenUrl\<close>, \<^verbatim>\<open>seenTitle\<close> and \<^verbatim>\<open>out\<close> passed as arguments. A non-empty string is
  truthy, the empty one is falsy.
\<close>

fun dedupe_loop ::
  "'a item_scheme list \<Rightarrow> string set \<Rightarrow> string set \<Rightarrow> 'a item_scheme list \<Rightarrow> 'a item_scheme list"
where
  "dedupe_loop [] seenUrl seenTitle out = out"
| "dedupe_loop (it # rest) seenUrl seenTitle out =
     (let u = toLowerCase (url it);
          tt = toLowerCase (title it);
          byUrl = (u \<noteq> [] \<and> u \<notin> seenUrl);
          byTitle = (tt \<noteq> [] \<and> tt \<notin> seenTitle)
      in if byUrl \<or> byTitle
         then dedupe_loop rest
                (if u \<noteq> [] then insert u seenUrl else seenUrl)
                (if tt \<noteq> [] then insert tt seenTitle else seenTitle)
                (out @ [it])
         else dedupe_loop rest seenUrl seenTitle out)"

definition dedupe :: "'a item_scheme list \<Rightarrow> 'a item_scheme list" where
  "dedupe items = dedupe_loop items {} {} []"

section \<open>Regular expressions\<close>

text \<open>
  The three regular expressions of the pipeline are alternatives of character sequences,
  two of which hold \<^verbatim>\<open>\s*\<close>. \<open>Lit c\<close> is a pattern character, \<open>WsStar\<close> is
  \<^verbatim>\<open>\s*\<close>. With the flag \<^verbatim>\<open>i\<close> two characters match when their canonical forms
  agree; the canonical form is the upper-case code unit where \<^verbatim>\<open>toUpperCase\<close> gives a
  single one (\<open>0xFF\<close> maps to U+0178 and \<open>0xB5\<close> to U+039C, \<open>0xDF\<close> has a two-letter
  upper case and stays).
\<close>

datatype atom = Lit char | WsStar

definition canonicalize :: "bool \<Rightarrow> char \<Rightarrow> nat" where
  "canonicalize ignoreCase c =
     (let n = (of_char c :: nat)
      in if \<not> ignoreCase then n
         else if (97 \<le> n \<and> n \<le> 122) \<or> (224 \<le> n \<and> n \<le> 254 \<and> n \<noteq> 247) then n - 32
         else if n = 255 then 376
         else if n = 181 then 924
         else n)"

text \<open>\<^verbatim>\<open>\s\<close> on this range: tab, line feed, vertical tab, form feed, carriage return,
  space and the no-break space.\<close>

definition is_space :: "char \<Rightarrow> bool" where
  "is_space c = ((of_char c :: nat) \<in> {9, 10, 11, 12, 13, 32, 160})"

text \<open>Does the sequence match at the start of the text?\<close>

fun match_here :: "bool \<Rightarrow> atom list \<Rightarrow> string \<Rightarrow> bool" where
  "match_here ic [] s = True"
| "match_here ic (Lit c # ps) [] = False"
| "match_here ic (Lit c # ps) (d # ds) =
     (canonicalize ic c = canonicalize ic d \<and> match_here ic ps ds)"
| "match_here ic (WsStar # ps) [] = match_here ic ps []"
| "match_here ic (WsStar # ps) (d # ds) =
     ((is_space d \<and> match_here ic (WsStar # ps) ds) \<or> match_here ic ps (d # ds))"

text \<open>\<^verbatim>\<open>/(a|b|...)/.test(s)\<close>: some alternative matches at some position of \<open>s\<close>.\<close>

definition regex_test :: "bool \<Rightarrow> atom list list \<Rightarrow> string \<Rightarrow> bool" where
  "regex_test ic alts s = (\<exists>rest\<in>set (suffixes s). \<exists>p\<in>set alts. match_here ic p rest)"

definition lit :: "string \<Rightarrow> atom list" where
  "lit k = map Lit k"

section \<open>Relevance Filter\<close>

definition intern_alts :: "atom list list" where
  "intern_alts = [lit (''est'' @ [CHR 0xE1] @ ''gio''), lit ''estagio'', lit ''internship'']"

definition dev_alts :: "atom list list" where
  "dev_alts =
     [lit ''desenvolvedor'', lit ''desenvolvimento'', lit ''developer'', lit ''programador'',
      lit ''software'', lit ''backend'', lit ''front'' @ [WsStar] @ lit ''end'', lit ''frontend'',
      lit ''full'' @ [WsStar] @ lit ''stack'', lit ''qa'', lit ''mobile'']"

definition isRelevant :: "'a raw_result_scheme \<Rightarrow> bool" where
  "isRelevant item =
     (let t = toLowerCase (title item @ '' '' @ description item);
          hasIntern = regex_test True intern_alts t;
          hasDev = regex_test True dev_alts t
      in hasIntern \<or> hasDev)"

section \<open>Domain Scorer\<close>

definition boosts :: "string list" where
  "boosts =
     [''linkedin.com/jobs'', ''indeed.com'', ''indeed.com.br'', ''gupy.io'', ''vagas.com.br'',
      ''trampos.co'', ''greenhouse.io'', ''lever.co'', ''workable.com'', ''jobvite.com'',
      ''empregos.com.br'']"

definition domainScore :: "string \<Rightarrow> int" where
  "domainScore url' =
     (let u = toLowerCase url'
      in if \<exists>d\<in>set boosts. str_includes u d then 3
         else if regex_test False [lit ''duckduckgo.com''] u then 0
         else 1)"

section \<open>Tag Extractor\<close>

definition techs_table :: "string list" where
  "techs_table =
     [''java'', ''javascript'', ''typescript'', ''node'', ''react'', ''next.js'', ''vue'',
      ''angular'', ''svelte'',
      ''python'', ''django'', ''flask'', ''fastapi'',
      ''c#'', ''.net'', ''asp.net'', ''entity framework'',
      ''ruby'', ''rails'', ''php'', ''laravel'', ''symfony'',
      ''go'', ''kotlin'', ''swift'',
      ''sql'', ''postgres'', ''mysql'', ''sqlite'', ''mongodb'',
      ''git'', ''docker'', ''kubernetes'', ''ci/cd'',
      ''aws'', ''azure'', ''gcp'']"

definition cities_table :: "string list" where
  "cities_table =
     [''porto alegre'', ''caxias do sul'', ''s'' @ [CHR 0xE3] @ ''o leopoldo'', ''novo hamburgo'',
      ''pelotas'', ''santa maria'',
      ''florian'' @ [CHR 0xF3] @ ''polis'', ''joinville'', ''blumenau'', ''chapec'' @ [CHR 0xF3],
      ''itajai'',
      ''curitiba'', ''londrina'', ''maring'' @ [CHR 0xE1], ''ponta grossa'']"

text \<open>\<^verbatim>\<open>[...new Set(xs)]\<close>: the elements of \<open>xs\<close> in the order of their first occurrence.\<close>

definition set_spread :: "'a list \<Rightarrow> 'a list" where
  "set_spread xs = foldl (\<lambda>acc x. if x \<in> set acc then acc else acc @ [x]) [] xs"

definition extractTags :: "string \<Rightarrow> tag_lists" where
  "extractTags text' =
     (let t = toLowerCase text';
          foundTechs = filter (\<lambda>x. str_includes t x) techs_table;
          foundCities = filter (\<lambda>x. str_includes t x) cities_table
      in \<lparr>techs = set_spread foundTechs, cities = set_spread foundCities\<rparr>)"

section \<open>Ranking Pipeline\<close>

text \<open>
  The body of the \<^verbatim>\<open>/search\<close> handler from line 160 to line 180, as a function of
  \<^verbatim>\<open>raw\<close>. \<^verbatim>\<open>Array.prototype.sort\<close> is stable, and the comparator
  \<^verbatim>\<open>(a,b) => b.score - a.score\<close> orders by falling score: that is \<^const>\<open>sort_key\<close>
  (a stable insertion sort) on the negated score.
\<close>

definition has_url_and_title :: "'a item_scheme \<Rightarrow> bool" where
  "has_url_and_title it = (url it \<noteq> [] \<and> title it \<noteq> [])"

definition tag_relevant :: "raw_result \<Rightarrow> tagged_result" where
  "tag_relevant it =
     (let tags' = extractTags (title it @ '' '' @ description it);
          score' = domainScore (url it) + (if techs tags' \<noteq> [] then 1 else 0)
                     + (if cities tags' \<noteq> [] then 1 else 0)
      in \<lparr>title = title it, url = url it, description = description it,
          tags = tags', score = score'\<rparr>)"

definition tag_informative :: "raw_result \<Rightarrow> tagged_result" where
  "tag_informative it =
     \<lparr>title = title it, url = url it, description = description it,
      tags = extractTags (title it @ '' '' @ description it), score = domainScore (url it)\<rparr>"

definition sort_by_score :: "tagged_result list \<Rightarrow> tagged_result list" where
  "sort_by_score xs = sort_key (\<lambda>r. - score r) xs"

text \<open>\<^verbatim>\<open>items\<close> after line 169: the narrow path.\<close>

definition narrow :: "raw_result list \<Rightarrow> tagged_result list" where
  "narrow raw =
     sort_by_score (dedupe (map tag_relevant (filter isRelevant (filter has_url_and_title raw))))"

definition informative :: "raw_result list \<Rightarrow> tagged_result list" where
  "informative raw = map tag_informative (filter has_url_and_title raw)"

text \<open>\<^verbatim>\<open>merged\<close> of line 176: the widened list.\<close>

definition widened :: "raw_result list \<Rightarrow> tagged_result list" where
  "widened raw = take 12 (sort_by_score (dedupe (narrow raw @ informative raw)))"

definition rank :: "raw_result list \<Rightarrow> tagged_result list" where
  "rank raw =
     (let items = narrow raw;
          items = (if length items < 5 then widened raw else items)
      in take 12 items)"

text \<open>
  The handler around it. What the two search collaborators do is an input: each call
  throws or returns, and \<^verbatim>\<open>searchGoogleCSE\<close> returns \<^verbatim>\<open>null\<close> (\<open>None\<close>) without its
  keys. An exception of the first call is swallowed (line 155) and leaves \<^verbatim>\<open>raw\<close> at
  \<^verbatim>\<open>null\<close>; the second call is made when \<^verbatim>\<open>raw\<close> is \<^verbatim>\<open>null\<close> or empty, and its
  exception reaches the outer \<^verbatim>\<open>catch\<close> and becomes status 500. \<open>respond\<close> is the
  handler from line 160 on.
\<close>

type_synonym utf16 = "nat list"

datatype 'a outcome = Throws | Returns 'a

text \<open>
  A summary is a text, or \<open>Undetermined\<close>: a text that this model does not fix (see
  \<open>localSummary\<close> below).
\<close>

datatype summary = Text (text_of: utf16) | Undetermined

datatype body = Results "tagged_result list" | Resumo summary | Erro string

text \<open>
  \<open>Json code body\<close> is an answer the handler sends. \<open>Uncaught\<close>: an exception leaves the
  handler, which has sent nothing; the framework answers for it with status 500.
\<close>

datatype response = Json nat body | Uncaught

definition respond :: "raw_result list outcome \<Rightarrow> response" where
  "respond raw =
     (case raw of
        Throws \<Rightarrow> Json 500 (Erro ''Falha ao buscar vagas'')
      | Returns r \<Rightarrow> Json 200 (Results (rank r)))"

definition search :: "raw_result list option outcome \<Rightarrow> raw_result list outcome \<Rightarrow> response" where
  "search google duck =
     (let raw = (case google of Throws \<Rightarrow> None | Returns r \<Rightarrow> r)
      in case raw of
           None \<Rightarrow> respond duck
         | Some r \<Rightarrow> if r = [] then respond duck else respond (Returns r))"

section \<open>Local Summarizer\<close>

text \<open>
  The summary holds a dash U+2014, which no \<^typ>\<open>char\<close> stands for, and the text of the
  summarization collaborator is not bounded to U+00FF either: a summary is a list of
  code units, \<open>units\<close> turning a string of the pipeline into one.
\<close>

definition units :: "string \<Rightarrow> utf16" where
  "units s = map of_char s"

text \<open>\<^verbatim>\<open>\w\<close> is a letter of \<open>A\<close>..\<open>Z\<close>, \<open>a\<close>..\<open>z\<close>, a digit or the underscore.\<close>

definition is_word_char :: "char \<Rightarrow> bool" where
  "is_word_char c =
     (let n = (of_char c :: nat)
      in (65 \<le> n \<and> n \<le> 90) \<or> (97 \<le> n \<and> n \<le> 122) \<or> (48 \<le> n \<and> n \<le> 57) \<or> n = 95)"

text \<open>\<^verbatim>\<open>c.toUpperCase()\<close> for a character that \<^verbatim>\<open>\w\<close> matched.\<close>

definition upper_word_char :: "char \<Rightarrow> char" where
  "upper_word_char c =
     (let n = (of_char c :: nat) in if 97 \<le> n \<and> n \<le> 122 then char_of (n - 32) else c)"

text \<open>
  \<^verbatim>\<open>s.replace(/\b\w/g, c => c.toUpperCase())\<close>: a word character is replaced when no
  word character stands before it. The flag says whether the character before was one.
\<close>

fun capitalize_from :: "bool \<Rightarrow> string \<Rightarrow> string" where
  "capitalize_from prev [] = []"
| "capitalize_from prev (c # cs) =
     (if is_word_char c \<and> \<not> prev then upper_word_char c else c)
       # capitalize_from (is_word_char c) cs"

definition capitalize :: "string \<Rightarrow> string" where
  "capitalize s = capitalize_from False s"

text \<open>A number in a template string: its decimal digits.\<close>

fun to_decimal :: "nat \<Rightarrow> string" where
  "to_decimal n =
     (if n < 10 then [char_of (48 + n)] else to_decimal (n div 10) @ [char_of (48 + n mod 10)])"

declare to_decimal.simps [simp del]

text \<open>
  \<^verbatim>\<open>techCount\<close> and \<^verbatim>\<open>cityCount\<close> are plain objects used as counters: an association
  list in the order of first insertion, a new key added at the end. Two things make a
  plain object differ from such a list.

  \<^item> \<^verbatim>\<open>Object.entries\<close> lists the keys that are array indices first, by rising number,
    and the other keys after them in the order of insertion. An array index is the
    decimal numeral, without a leading zero, of a number up to \<open>2^32 - 2\<close>.
  \<^item> A key that names a property of \<^verbatim>\<open>Object.prototype\<close> reads as that property, not
    as \<^verbatim>\<open>undefined\<close>: the counter becomes a string, the comparator of the sort gives
    \<^verbatim>\<open>NaN\<close>, and the order of \<^verbatim>\<open>Array.prototype.sort\<close> is then left to the
    implementation. \<open>localSummary\<close> is \<open>Undetermined\<close> for such tags: the code
    returns a text there, which this model does not fix.
\<close>

definition object_prototype_names :: "string list" where
  "object_prototype_names =
     [''constructor'', ''__defineGetter__'', ''__defineSetter__'', ''hasOwnProperty'',
      ''__lookupGetter__'', ''__lookupSetter__'', ''isPrototypeOf'', ''propertyIsEnumerable'',
      ''toString'', ''valueOf'', ''__proto__'', ''toLocaleString'']"

definition inherited_tag :: "tagged_result list \<Rightarrow> bool" where
  "inherited_tag results =
     (\<exists>r\<in>set results. \<exists>k\<in>set (techs (tags r) @ cities (tags r)).
        k \<in> set object_prototype_names)"

definition is_digit :: "char \<Rightarrow> bool" where
  "is_digit c = (48 \<le> (of_char c :: nat) \<and> (of_char c :: nat) \<le> 57)"

definition decimal_value :: "string \<Rightarrow> int" where
  "decimal_value s = foldl (\<lambda>n c. 10 * n + (of_char c - 48)) 0 s"

definition is_array_index :: "string \<Rightarrow> bool" where
  "is_array_index s =
     (s \<noteq> [] \<and> list_all is_digit s \<and> (s = ''0'' \<or> \<not> hd s = CHR ''0'')
      \<and> decimal_value s < 4294967295)"

text \<open>\<^verbatim>\<open>Object.entries\<close> of a counter.\<close>

definition entries :: "(string \<times> nat) list \<Rightarrow> (string \<times> nat) list" where
  "entries count =
     sort_key (\<lambda>(k, v). decimal_value k) (filter (\<lambda>(k, v). is_array_index k) count)
     @ filter (\<lambda>(k, v). \<not> is_array_index k) count"

text \<open>\<^verbatim>\<open>count[k] = (count[k] || 0) + 1\<close>, for a key that \<^verbatim>\<open>Object.prototype\<close> does not name.\<close>

definition bump :: "(string \<times> nat) list \<Rightarrow> string \<Rightarrow> (string \<times> nat) list" where
  "bump count k =
     (if k \<in> fst ` set count
      then map (\<lambda>(k', v). if k' = k then (k', v + 1) else (k', v)) count
      else count @ [(k, 1)])"

definition count_tags ::
  "tagged_result list \<Rightarrow> (string \<times> nat) list \<times> (string \<times> nat) list" where
  "count_tags results =
     foldl (\<lambda>(techCount, cityCount) r.
              (foldl bump techCount (techs (tags r)), foldl bump cityCount (cities (tags r))))
           ([], []) results"

text \<open>\<^verbatim>\<open>Object.entries(count).sort((a,b)=>b[1]-a[1]).slice(0,n)\<close>; the sort is stable.\<close>

definition top_entries :: "nat \<Rightarrow> (string \<times> nat) list \<Rightarrow> (string \<times> nat) list" where
  "top_entries n count = take n (sort_key (\<lambda>(k, v). - int v) (entries count))"

fun join :: "'a list \<Rightarrow> 'a list list \<Rightarrow> 'a list" where
  "join sep [] = []"
| "join sep [x] = x"
| "join sep (x # y # ys) = x @ sep @ join sep (y # ys)"

definition localSummary :: "tagged_result list \<Rightarrow> summary" where
  "localSummary results =
     (if inherited_tag results then Undetermined
      else
       (let (techCount, cityCount) = count_tags results;
            best = take 5 results;
            topTech = map (\<lambda>(k, v). units (k @ '' ('' @ to_decimal v @ '')''))
                        (top_entries 6 techCount);
            topCity = map (\<lambda>(k, v). units (capitalize k @ '' ('' @ to_decimal v @ '')''))
                        (top_entries 5 cityCount);
            lines =
              [if topTech \<noteq> []
               then units ''Tecnologias mais citadas: '' @ join (units '', '') topTech @ units ''.''
               else units (''Tecnologias mais citadas: n'' @ [CHR 0xE3] @ ''o identificadas.''),
               if topCity \<noteq> []
               then units ''Cidades em destaque: '' @ join (units '', '') topCity @ units ''.''
               else units (''Cidades em destaque: n'' @ [CHR 0xE3] @ ''o identificadas.''),
               units ''Top 5 oportunidades:'']
              @ map (\<lambda>(i, b). units (to_decimal (i + 1) @ ''. '' @ title b @ '' '') @ [8212]
                                @ units ('' '' @ url b))
                  (enumerate 0 best)
              @ [units (''Requisitos comuns de est'' @ [CHR 0xE1] @ ''gio: conhecimentos b''
                        @ [CHR 0xE1] @ ''sicos na stack citada, versionamento (Git), l''
                        @ [CHR 0xF3] @ ''gica de programa'' @ [CHR 0xE7, CHR 0xE3]
                        @ ''o, bancos de dados, comunica'' @ [CHR 0xE7, CHR 0xE3]
                        @ ''o e trabalho em equipe.''),
                 units (''Dicas: mantenha projetos no GitHub e adapte o curr'' @ [CHR 0xED]
                        @ ''culo '' @ [CHR 0xE0] @ ''s tecnologias exigidas.'')]
        in Text (join [10] lines)))"

section \<open>The refine operation\<close>

text \<open>
  The \<^verbatim>\<open>/refine\<close> handler. \<open>results\<close> is \<open>None\<close> when the body holds no array;
  an element of the array is \<^verbatim>\<open>null\<close> (\<open>None\<close>) or an object with the fields of a
  tagged result. \<open>apiKey\<close> is the environment variable, \<open>None\<close> when unset; an empty
  one is falsy too. \<open>gemini\<close> is what the outbound call does: it throws (also when
  the answer is not JSON), or it returns, and \<open>output\<close> is the text found in the
  answer, if any.

  The two guards of lines 191 to 196 come first, in this order. The prompt of lines 200
  to 220 reads \<^verbatim>\<open>r.title\<close> of every element before the \<^verbatim>\<open>try\<close>: a \<^verbatim>\<open>null\<close>
  element throws there and nothing catches it.
\<close>

definition refine ::
  "tagged_result option list option \<Rightarrow> string option \<Rightarrow> utf16 option outcome \<Rightarrow> response" where
  "refine results apiKey gemini =
     (case results of
        None \<Rightarrow> Json 400 (Erro ''Sem resultados para refinar'')
      | Some rs \<Rightarrow>
          if rs = [] then Json 400 (Erro ''Sem resultados para refinar'')
          else if apiKey = None \<or> apiKey = Some []
          then Json 400 (Erro (''Gemini API Key n'' @ [CHR 0xE3] @ ''o configurada''))
          else if None \<in> set rs then Uncaught
          else
           (let local = localSummary (List.map_filter (\<lambda>r. r) rs)
            in case gemini of
                 Throws \<Rightarrow> Json 200 (Resumo local)
               | Returns output \<Rightarrow>
                   Json 200 (Resumo (case output of
                                       None \<Rightarrow> local
                                     | Some t \<Rightarrow> if t \<noteq> [] then Text t else local))))"

section \<open>The specification's reading of the Relevance Filter\<close>

text \<open>
  The specification describes each development keyword as a token match, not as an
  arbitrary part of a longer word. \<open>spec_isRelevant\<close> follows these words, for the
  comparison with \<^const>\<open>isRelevant\<close>: an alternative of \<^const>\<open>dev_alts\<close> counts
  only where no word character stands directly before it or directly after it.
\<close>

fun spec_token_here :: "atom list \<Rightarrow> string \<Rightarrow> bool" where
  "spec_token_here [] [] = True"
| "spec_token_here [] (d # ds) = (\<not> is_word_char d)"
| "spec_token_here (Lit c # ps) [] = False"
| "spec_token_here (Lit c # ps) (d # ds) =
     (canonicalize True c = canonicalize True d \<and> spec_token_here ps ds)"
| "spec_token_here (WsStar # ps) [] = spec_token_here ps []"
| "spec_token_here (WsStar # ps) (d # ds) =
     ((is_space d \<and> spec_token_here (WsStar # ps) ds) \<or> spec_token_here ps (d # ds))"

fun spec_token_scan :: "atom list list \<Rightarrow> bool \<Rightarrow> string \<Rightarrow> bool" where
  "spec_token_scan alts prev [] = False"
| "spec_token_scan alts prev (c # cs) =
     ((\<not> prev \<and> (\<exists>p\<in>set alts. spec_token_here p (c # cs)))
      \<or> spec_token_scan alts (is_word_char c) cs)"

definition spec_isRelevant :: "'a raw_result_scheme \<Rightarrow> bool" where
  "spec_isRelevant item =
     (let t = toLowerCase (title item @ '' '' @ description item);
          hasIntern = regex_test True intern_alts t;
          hasDev = spec_token_scan dev_alts False t
      in hasIntern \<or> hasDev)"

section \<open>Properties of the Deduplicator stated by index\<close>

text \<open>
  \<open>new_key key xs i\<close>: the lowercased key of the item at position \<open>i\<close> is not empty
  and is the lowercased key of no item before it.
\<close>

definition new_key :: "('b \<Rightarrow> string) \<Rightarrow> 'b list \<Rightarrow> nat \<Rightarrow> bool" where
  "new_key key xs i =
     (toLowerCase (key (xs ! i)) \<noteq> []
      \<and> toLowerCase (key (xs ! i)) \<notin> set (map (\<lambda>it. toLowerCase (key it)) (take i xs)))"

definition kept :: "'a item_scheme list \<Rightarrow> nat \<Rightarrow> bool" where
  "kept xs i = (new_key url xs i \<or> new_key title xs i)"

text \<open>
  \<open>unseen key xs i\<close>: the lowercased key of the item at position \<open>i\<close> is not empty
  and is the lowercased key of no item kept before it, that is, it is not in the set of
  seen keys when the loop reaches the item.
\<close>

definition unseen :: "('a item_scheme \<Rightarrow> string) \<Rightarrow> 'a item_scheme list \<Rightarrow> nat \<Rightarrow> bool" where
  "unseen key xs i =
     (toLowerCase (key (xs ! i)) \<noteq> []
      \<and> toLowerCase (key (xs ! i))
            \<notin> set (map (\<lambda>it. toLowerCase (key it)) (dedupe (take i xs))))"

text \<open>The same for the loop started with the sets \<open>su\<close> and \<open>st\<close> of seen keys.\<close>

definition kept_from :: "string set \<Rightarrow> string set \<Rightarrow> 'a item_scheme list \<Rightarrow> nat \<Rightarrow> bool" where
  "kept_from su st xs i =
     ((new_key url xs i \<and> toLowerCase (url (xs ! i)) \<notin> su)
      \<or> (new_key title xs i \<and> toLowerCase (title (xs ! i)) \<notin> st))"

text \<open>
  \<open>brings_new_key raw\<close>: some raw item with url and title has a lowercased url that no
  item of the narrow list has, or a lowercased title that no item of the narrow list has.
\<close>

definition brings_new_key :: "raw_result list \<Rightarrow> bool" where
  "brings_new_key raw =
     (\<exists>it\<in>set raw. has_url_and_title it
        \<and> (toLowerCase (url it) \<notin> (\<lambda>r. toLowerCase (url r)) ` set (narrow raw)
           \<or> toLowerCase (title it) \<notin> (\<lambda>r. toLowerCase (title r)) ` set (narrow raw)))"

definition lowered :: "string \<Rightarrow> bool" where
  "lowered s = (\<forall>c\<in>set s. lower_char c = c)"

section \<open>Example inputs\<close>

definition same_url_pair :: "item list" where
  "same_url_pair = [\<lparr>title = ''x'', url = ''a''\<rparr>, \<lparr>title = ''y'', url = ''a''\<rparr>]"

definition mixed_items :: "item list" where
  "mixed_items =
     [\<lparr>title = ''x'', url = ''a''\<rparr>, \<lparr>title = ''X'', url = ''A''\<rparr>,
      \<lparr>title = [], url = []\<rparr>, \<lparr>title = ''x'', url = ''b''\<rparr>]"

definition job_plain :: raw_result where
  "job_plain = \<lparr>title = ''estagio'', url = ''a.com/1'', description = []\<rparr>"

definition job_java :: raw_result where
  "job_java = \<lparr>title = ''estagio java'', url = ''a.com/1'', description = []\<rparr>"

definition job_gupy :: raw_result where
  "job_gupy = \<lparr>title = ''estagio'', url = ''gupy.io/2'', description = []\<rparr>"

definition news_item :: raw_result where
  "news_item = \<lparr>title = ''Qatar news'', url = ''b.com'', description = []\<rparr>"

definition off_topic :: raw_result where
  "off_topic = \<lparr>title = ''python'', url = ''c.org'', description = []\<rparr>"

definition numbered_tags :: "tagged_result list" where
  "numbered_tags =
     [\<lparr>title = ''t'', url = ''u'', description = [],
       tags = \<lparr>techs = [''java'', ''10'', ''2'', ''007''], cities = []\<rparr>, score = 1\<rparr>]"

definition one_result :: "tagged_result list" where
  "one_result =
     [\<lparr>title = ''estagio java'', url = ''gupy.io/2'', description = ''curitiba'',
       tags = \<lparr>techs = [''java''], cities = [''curitiba'']\<rparr>, score = 5\<rparr>]"

section \<open>Facts about strings\<close>

lemma toLowerCase_Nil [simp]: "toLowerCase [] = []"
  by (simp add: toLowerCase_def)

lemma toLowerCase_eq_Nil [simp]: "toLowerCase s = [] \<longleftrightarrow> s = []"
  by (simp add: toLowerCase_def)

section \<open>The Deduplicator\<close>

lemma dedupe_loop_out:
  "dedupe_loop xs su st out = out @ dedupe_loop xs su st []"
proof (induction xs arbitrary: su st out)
  case Nil
  show ?case by simp
next
  case (Cons x xs)
  show ?case
    using Cons.IH [of _ _ "out @ [x]"] Cons.IH [of _ _ "[x]"] Cons.IH [of _ _ out]
    by (simp add: Let_def)
qed

lemma dedupe_loop_idem:
  "dedupe_loop (dedupe_loop xs su st []) su st [] = dedupe_loop xs su st []"
proof (induction xs arbitrary: su st)
  case Nil
  show ?case by simp
next
  case (Cons x xs)
  show ?case
    using Cons.IH
    by (simp add: Let_def dedupe_loop_out [of _ _ _ "[x]"])
qed

lemma dedupe_loop_subseq: "subseq (dedupe_loop xs su st []) xs"
proof (induction xs arbitrary: su st)
  case Nil
  show ?case by simp
next
  case (Cons x xs)
  show ?case
    using Cons.IH
    by (auto simp add: Let_def dedupe_loop_out [of _ _ _ "[x]"] intro: list_emb_Cons)
qed

lemma set_dedupe_subset: "set (dedupe xs) \<subseteq> set xs"
proof
  fix it
  assume "it \<in> set (dedupe xs)"
  then have "it \<in> set (dedupe_loop xs {} {} [])"
    by (simp add: dedupe_def)
  from list_emb_set [OF dedupe_loop_subseq this] show "it \<in> set xs"
    by blast
qed

lemma dedupe_loop_append:
  "\<exists>zs. dedupe_loop (xs @ ys) su st [] = dedupe_loop xs su st [] @ zs"
proof (induction xs arbitrary: su st)
  case Nil
  show ?case by simp
next
  case (Cons x xs)
  show ?case
    using Cons.IH
    by (simp add: Let_def dedupe_loop_out [of _ _ _ "[x]"])
qed

text \<open>
  The loop over two lists in a row: the second list is met with the seen sets that the
  first one leaves, which hold the non-empty keys of all its items.
\<close>

lemma dedupe_loop_append_seen:
  "dedupe_loop (xs @ ys) su st [] =
     dedupe_loop xs su st []
     @ dedupe_loop ys (su \<union> ((\<lambda>it. toLowerCase (url it)) ` set xs - {[]}))
         (st \<union> ((\<lambda>it. toLowerCase (title it)) ` set xs - {[]})) []"
proof (induction xs arbitrary: su st)
  case Nil
  show ?case by simp
next
  case (Cons x xs)
  let ?u = "toLowerCase (url x)" and ?t = "toLowerCase (title x)"
  let ?keep = "(?u \<noteq> [] \<and> ?u \<notin> su) \<or> (?t \<noteq> [] \<and> ?t \<notin> st)"
  let ?su = "if ?keep then (if ?u \<noteq> [] then insert ?u su else su) else su"
  let ?st = "if ?keep then (if ?t \<noteq> [] then insert ?t st else st) else st"
  have both: "dedupe_loop ((x # xs) @ ys) su st []
      = (if ?keep then [x] else []) @ dedupe_loop (xs @ ys) ?su ?st []"
    by (simp add: Let_def dedupe_loop_out [of _ _ _ "[x]"])
  have first: "dedupe_loop (x # xs) su st []
      = (if ?keep then [x] else []) @ dedupe_loop xs ?su ?st []"
    by (simp add: Let_def dedupe_loop_out [of _ _ _ "[x]"])
  have urls: "?su \<union> ((\<lambda>it. toLowerCase (url it)) ` set xs - {[]})
      = su \<union> ((\<lambda>it. toLowerCase (url it)) ` set (x # xs) - {[]})"
    by auto
  have titles: "?st \<union> ((\<lambda>it. toLowerCase (title it)) ` set xs - {[]})
      = st \<union> ((\<lambda>it. toLowerCase (title it)) ` set (x # xs) - {[]})"
    by auto
  have "dedupe_loop (xs @ ys) ?su ?st []
      = dedupe_loop xs ?su ?st []
        @ dedupe_loop ys (?su \<union> ((\<lambda>it. toLowerCase (url it)) ` set xs - {[]}))
            (?st \<union> ((\<lambda>it. toLowerCase (title it)) ` set xs - {[]})) []"
    by (rule Cons.IH)
  then show ?case
    unfolding both first urls titles by simp
qed

text \<open>The loop keeps nothing exactly when no item has a non-empty key outside the seen sets.\<close>

lemma dedupe_loop_eq_Nil_iff:
  "dedupe_loop ys su st [] = [] \<longleftrightarrow>
     (\<forall>y\<in>set ys. \<not> ((toLowerCase (url y) \<noteq> [] \<and> toLowerCase (url y) \<notin> su)
                     \<or> (toLowerCase (title y) \<noteq> [] \<and> toLowerCase (title y) \<notin> st)))"
proof (induction ys)
  case Nil
  show ?case by simp
next
  case (Cons y ys)
  show ?case
    using Cons.IH by (auto simp add: Let_def dedupe_loop_out [of _ _ _ "[y]"])
qed

lemma filter_upt_Suc:
  "filter P [0..<Suc n] = (if P 0 then [0] else []) @ map Suc (filter (\<lambda>j. P (Suc j)) [0..<n])"
proof -
  have "[0..<Suc n] = 0 # map Suc [0..<n]"
    by (simp add: upt_conv_Cons map_Suc_upt del: upt_Suc)
  then show ?thesis
    by (simp add: filter_map comp_def del: upt_Suc)
qed

lemma dedupe_loop_index:
  "dedupe_loop xs su st [] = map ((!) xs) (filter (kept_from su st xs) [0..<length xs])"
proof (induction xs arbitrary: su st)
  case Nil
  show ?case by simp
next
  case (Cons x xs)
  let ?u = "toLowerCase (url x)" and ?t = "toLowerCase (title x)"
  let ?keep = "(?u \<noteq> [] \<and> ?u \<notin> su) \<or> (?t \<noteq> [] \<and> ?t \<notin> st)"
  let ?su = "if ?keep then (if ?u \<noteq> [] then insert ?u su else su) else su"
  let ?st = "if ?keep then (if ?t \<noteq> [] then insert ?t st else st) else st"
  have zero: "kept_from su st (x # xs) 0 = ?keep"
    by (simp add: kept_from_def new_key_def)
  have shift: "kept_from su st (x # xs) (Suc j) = kept_from ?su ?st xs j" for j
    by (auto simp add: kept_from_def new_key_def)
  have "dedupe_loop (x # xs) su st [] = (if ?keep then [x] else []) @ dedupe_loop xs ?su ?st []"
    by (simp add: Let_def dedupe_loop_out [of _ _ _ "[x]"])
  also have "dedupe_loop xs ?su ?st [] = map ((!) xs) (filter (kept_from ?su ?st xs) [0..<length xs])"
    by (rule Cons.IH)
  also have "(if ?keep then [x] else []) @ map ((!) xs) (filter (kept_from ?su ?st xs) [0..<length xs])
      = map ((!) (x # xs)) (filter (kept_from su st (x # xs)) [0..<length (x # xs)])"
    unfolding length_Cons filter_upt_Suc
    by (simp add: comp_def zero shift del: upt_Suc)
  finally show ?case .
qed

lemma kept_from_empty: "kept_from {} {} xs = kept xs"
  by (rule ext) (simp add: kept_from_def kept_def)

text \<open>
  An item that is dropped adds nothing to the seen keys, so the keys of the kept items
  are the keys of all items, the empty key apart.
\<close>

lemma seen_urls_dedupe_loop:
  "(su \<union> (\<lambda>it. toLowerCase (url it)) ` set (dedupe_loop ys su st [])) - {[]}
     = (su \<union> (\<lambda>it. toLowerCase (url it)) ` set ys) - {[]}"
proof (induction ys arbitrary: su st)
  case Nil
  show ?case by simp
next
  case (Cons x ys)
  let ?u = "toLowerCase (url x)" and ?t = "toLowerCase (title x)"
  show ?case
  proof (cases "(?u \<noteq> [] \<and> ?u \<notin> su) \<or> (?t \<noteq> [] \<and> ?t \<notin> st)")
    case True
    let ?su = "if ?u \<noteq> [] then insert ?u su else su"
    let ?st = "if ?t \<noteq> [] then insert ?t st else st"
    from True have step: "dedupe_loop (x # ys) su st [] = x # dedupe_loop ys ?su ?st []"
      by (simp add: Let_def dedupe_loop_out [of _ _ _ "[x]"])
    have "(su \<union> (\<lambda>it. toLowerCase (url it)) ` set (x # dedupe_loop ys ?su ?st [])) - {[]}
        = (?su \<union> (\<lambda>it. toLowerCase (url it)) ` set (dedupe_loop ys ?su ?st [])) - {[]}"
      by auto
    also have "\<dots> = (?su \<union> (\<lambda>it. toLowerCase (url it)) ` set ys) - {[]}"
      by (rule Cons.IH)
    also have "\<dots> = (su \<union> (\<lambda>it. toLowerCase (url it)) ` set (x # ys)) - {[]}"
      by auto
    finally show ?thesis
      unfolding step .
  next
    case False
    then have step: "dedupe_loop (x # ys) su st [] = dedupe_loop ys su st []"
      by (auto simp add: Let_def)
    have "(su \<union> (\<lambda>it. toLowerCase (url it)) ` set (dedupe_loop ys su st [])) - {[]}
        = (su \<union> (\<lambda>it. toLowerCase (url it)) ` set ys) - {[]}"
      by (rule Cons.IH)
    also have "\<dots> = (su \<union> (\<lambda>it. toLowerCase (url it)) ` set (x # ys)) - {[]}"
      using False by auto
    finally show ?thesis
      unfolding step .
  qed
qed

lemma seen_titles_dedupe_loop:
  "(st \<union> (\<lambda>it. toLowerCase (title it)) ` set (dedupe_loop ys su st [])) - {[]}
     = (st \<union> (\<lambda>it. toLowerCase (title it)) ` set ys) - {[]}"
proof (induction ys arbitrary: su st)
  case Nil
  show ?case by simp
next
  case (Cons x ys)
  let ?u = "toLowerCase (url x)" and ?t = "toLowerCase (title x)"
  show ?case
  proof (cases "(?u \<noteq> [] \<and> ?u \<notin> su) \<or> (?t \<noteq> [] \<and> ?t \<notin> st)")
    case True
    let ?su = "if ?u \<noteq> [] then insert ?u su else su"
    let ?st = "if ?t \<noteq> [] then insert ?t st else st"
    from True have step: "dedupe_loop (x # ys) su st [] = x # dedupe_loop ys ?su ?st []"
      by (simp add: Let_def dedupe_loop_out [of _ _ _ "[x]"])
    have "(st \<union> (\<lambda>it. toLowerCase (title it)) ` set (x # dedupe_loop ys ?su ?st [])) - {[]}
        = (?st \<union> (\<lambda>it. toLowerCase (title it)) ` set (dedupe_loop ys ?su ?st [])) - {[]}"
      by auto
    also have "\<dots> = (?st \<union> (\<lambda>it. toLowerCase (title it)) ` set ys) - {[]}"
      by (rule Cons.IH)
    also have "\<dots> = (st \<union> (\<lambda>it. toLowerCase (title it)) ` set (x # ys)) - {[]}"
      by auto
    finally show ?thesis
      unfolding step .
  next
    case False
    then have step: "dedupe_loop (x # ys) su st [] = dedupe_loop ys su st []"
      by (auto simp add: Let_def)
    have "(st \<union> (\<lambda>it. toLowerCase (title it)) ` set (dedupe_loop ys su st [])) - {[]}
        = (st \<union> (\<lambda>it. toLowerCase (title it)) ` set ys) - {[]}"
      by (rule Cons.IH)
    also have "\<dots> = (st \<union> (\<lambda>it. toLowerCase (title it)) ` set (x # ys)) - {[]}"
      using False by auto
    finally show ?thesis
      unfolding step .
  qed
qed

lemma new_key_url_unseen: "new_key url xs i \<longleftrightarrow> unseen url xs i"
proof -
  have "(\<lambda>it. toLowerCase (url it)) ` set (dedupe (take i xs)) - {[]}
      = (\<lambda>it. toLowerCase (url it)) ` set (take i xs) - {[]}"
    unfolding dedupe_def using seen_urls_dedupe_loop [of "{}" "take i xs" "{}"] by simp
  then show ?thesis
    unfolding new_key_def unseen_def set_map by blast
qed

lemma new_key_title_unseen: "new_key title xs i \<longleftrightarrow> unseen title xs i"
proof -
  have "(\<lambda>it. toLowerCase (title it)) ` set (dedupe (take i xs)) - {[]}
      = (\<lambda>it. toLowerCase (title it)) ` set (take i xs) - {[]}"
    unfolding dedupe_def using seen_titles_dedupe_loop [of "{}" "take i xs" "{}"] by simp
  then show ?thesis
    unfolding new_key_def unseen_def set_map by blast
qed

lemma dedupe_mixed_items:
  "dedupe mixed_items = [\<lparr>title = ''x'', url = ''a''\<rparr>, \<lparr>title = ''x'', url = ''b''\<rparr>]"
  by code_simp

text \<open>
  C1. For every input sequence, \<open>dedupe\<close> returns the items at exactly those positions
  where the lowercased url is not empty and is the lowercased url of no earlier item, or
  the lowercased title is not empty and is the lowercased title of no earlier item. That
  is the same as: not empty and not among the keys seen so far, the keys of the items
  kept before. The kept items come in the order of the input, and no kept item has both
  url and title empty.
\<close>

theorem dedupe_keeps_first_occurrences:
  "dedupe xs = map ((!) xs) (filter (kept xs) [0..<length xs])
   \<and> (\<forall>i. kept xs i \<longleftrightarrow> unseen url xs i \<or> unseen title xs i)
   \<and> subseq (dedupe xs) xs
   \<and> (\<forall>it\<in>set (dedupe xs). \<not> (url it = [] \<and> title it = []))"
proof (intro conjI ballI allI)
  show index: "dedupe xs = map ((!) xs) (filter (kept xs) [0..<length xs])"
    unfolding dedupe_def by (simp only: dedupe_loop_index kept_from_empty)
  show "kept xs i \<longleftrightarrow> unseen url xs i \<or> unseen title xs i" for i
    by (simp only: kept_def new_key_url_unseen new_key_title_unseen)
  show "subseq (dedupe xs) xs"
    unfolding dedupe_def by (rule dedupe_loop_subseq)
  fix it
  assume "it \<in> set (dedupe xs)"
  then obtain i where "it = xs ! i" and "kept xs i"
    unfolding index by auto
  then show "\<not> (url it = [] \<and> title it = [])"
    by (auto simp add: kept_def new_key_def)
qed

theorem dedupe_keeps_first_occurrences_witness:
  "filter (kept mixed_items) [0..<length mixed_items] = [0, 3]
   \<and> dedupe mixed_items = [mixed_items ! 0, mixed_items ! 3]
   \<and> unseen url mixed_items 3 \<and> \<not> unseen title mixed_items 3
   \<and> subseq (dedupe mixed_items) mixed_items
   \<and> hd (dedupe mixed_items) \<in> set (dedupe mixed_items)
   \<and> \<not> (url (hd (dedupe mixed_items)) = [] \<and> title (hd (dedupe mixed_items)) = [])"
proof -
  note main = dedupe_keeps_first_occurrences [of mixed_items]
  have positions: "filter (kept mixed_items) [0..<length mixed_items] = [0, 3]"
    by code_simp
  have "dedupe mixed_items = map ((!) mixed_items) [0, 3]"
    using main positions by simp
  then have items: "dedupe mixed_items = [mixed_items ! 0, mixed_items ! 3]"
    by simp
  have fourth: "kept mixed_items 3 \<and> \<not> unseen title mixed_items 3"
    by code_simp
  then have by_url: "unseen url mixed_items 3"
    using main by blast
  have order: "subseq (dedupe mixed_items) mixed_items"
    using main by blast
  have member: "hd (dedupe mixed_items) \<in> set (dedupe mixed_items)"
    by (simp add: items)
  have "\<forall>it\<in>set (dedupe mixed_items). \<not> (url it = [] \<and> title it = [])"
    using main by blast
  then have "\<not> (url (hd (dedupe mixed_items)) = [] \<and> title (hd (dedupe mixed_items)) = [])"
    using member by blast
  then show ?thesis
    using positions items fourth by_url order member by blast
qed

text \<open>
  C2, as the code has it. On the two items with url \<open>a\<close> and titles \<open>x\<close> and \<open>y\<close>,
  \<open>dedupe\<close> returns both: the url of the second item was seen, its title was not, and
  one new key is enough to keep an item.
\<close>

theorem dedupe_same_url_pair_keeps_both:
  "dedupe same_url_pair = same_url_pair"
  by code_simp

text \<open>C2 as stated fails: the result is not the list of the first item alone.\<close>

theorem dedupe_same_url_pair_counterexample:
  "dedupe [\<lparr>title = ''x'', url = ''a''\<rparr>, \<lparr>title = ''y'', url = ''a''\<rparr>]
     \<noteq> [\<lparr>title = ''x'', url = ''a''\<rparr>]"
  by code_simp

text \<open>C8. \<open>dedupe\<close> is idempotent: a second pass over its own result changes nothing.\<close>

theorem dedupe_idempotent: "dedupe (dedupe xs) = dedupe xs"
  unfolding dedupe_def by (rule dedupe_loop_idem)

theorem dedupe_idempotent_witness:
  "dedupe (dedupe mixed_items) = [\<lparr>title = ''x'', url = ''a''\<rparr>, \<lparr>title = ''x'', url = ''b''\<rparr>]"
  using dedupe_idempotent [of mixed_items] dedupe_mixed_items by simp

section \<open>The Ranking Pipeline\<close>

lemma domainScore_values: "domainScore u = 0 \<or> domainScore u = 1 \<or> domainScore u = 3"
  by (simp add: domainScore_def Let_def)

lemma score_tag_relevant: "0 \<le> score (tag_relevant it) \<and> score (tag_relevant it) \<le> 5"
  using domainScore_values [of "url it"] by (auto simp add: tag_relevant_def Let_def)

lemma score_tag_informative: "0 \<le> score (tag_informative it) \<and> score (tag_informative it) \<le> 5"
  using domainScore_values [of "url it"] by (auto simp add: tag_informative_def)

lemma set_sort_by_score [simp]: "set (sort_by_score xs) = set xs"
  by (simp add: sort_by_score_def)

lemma length_sort_by_score [simp]: "length (sort_by_score xs) = length xs"
  by (simp add: sort_by_score_def)

lemma set_narrow:
  "set (narrow raw) \<subseteq> tag_relevant ` {it \<in> set raw. has_url_and_title it}"
  using set_dedupe_subset [of "map tag_relevant (filter isRelevant (filter has_url_and_title raw))"]
  by (auto simp add: narrow_def)

lemma set_informative:
  "set (informative raw) = tag_informative ` {it \<in> set raw. has_url_and_title it}"
  by (auto simp add: informative_def)

lemma set_widened: "set (widened raw) \<subseteq> set (narrow raw) \<union> set (informative raw)"
proof
  fix r
  assume "r \<in> set (widened raw)"
  then have "r \<in> set (sort_by_score (dedupe (narrow raw @ informative raw)))"
    unfolding widened_def by (rule in_set_takeD)
  then have "r \<in> set (narrow raw @ informative raw)"
    using set_dedupe_subset [of "narrow raw @ informative raw"] by auto
  then show "r \<in> set (narrow raw) \<union> set (informative raw)"
    by simp
qed

lemma set_rank: "set (rank raw) \<subseteq> set (narrow raw) \<union> set (informative raw)"
proof
  fix r
  assume "r \<in> set (rank raw)"
  then have "r \<in> set (if length (narrow raw) < 5 then widened raw else narrow raw)"
    unfolding rank_def Let_def by (rule in_set_takeD)
  then show "r \<in> set (narrow raw) \<union> set (informative raw)"
    using set_widened [of raw] by (auto split: if_splits)
qed

lemma produced_cases:
  assumes "r \<in> set (narrow raw) \<union> set (informative raw)"
  obtains it where "it \<in> set raw" and "has_url_and_title it"
    and "r = tag_relevant it \<or> r = tag_informative it"
  using assms set_narrow [of raw] set_informative [of raw] by auto

lemma length_widened: "length (widened raw) \<le> 12"
  by (simp add: widened_def)

lemma rank_fallback: "length (narrow raw) < 5 \<Longrightarrow> rank raw = widened raw"
  by (simp add: rank_def Let_def widened_def)

text \<open>
  What the second \<open>dedupe\<close> keeps of the informative list, after a narrow list that it
  leaves as it is.
\<close>

lemma widened_after_stable_narrow:
  assumes "dedupe (narrow raw) = narrow raw"
  shows "dedupe (narrow raw @ informative raw)
           = narrow raw
             @ dedupe_loop (informative raw)
                 ((\<lambda>r. toLowerCase (url r)) ` set (narrow raw) - {[]})
                 ((\<lambda>r. toLowerCase (title r)) ` set (narrow raw) - {[]}) []"
  using dedupe_loop_append_seen [of "narrow raw" "informative raw" "{}" "{}"] assms
  by (simp add: dedupe_def)

lemma informative_adds_iff:
  "dedupe_loop (informative raw)
      ((\<lambda>r. toLowerCase (url r)) ` set (narrow raw) - {[]})
      ((\<lambda>r. toLowerCase (title r)) ` set (narrow raw) - {[]}) [] \<noteq> []
   \<longleftrightarrow> brings_new_key raw"
  unfolding dedupe_loop_eq_Nil_iff brings_new_key_def informative_def
  by (auto simp add: tag_informative_def has_url_and_title_def)

lemma narrow_kept_when_stable:
  assumes "dedupe (narrow raw) = narrow raw" and "length (narrow raw) < 5"
  shows "length (narrow raw) \<le> length (widened raw)"
    and "length (narrow raw) < length (widened raw) \<longleftrightarrow> brings_new_key raw"
proof -
  let ?more = "dedupe_loop (informative raw)
      ((\<lambda>r. toLowerCase (url r)) ` set (narrow raw) - {[]})
      ((\<lambda>r. toLowerCase (title r)) ` set (narrow raw) - {[]}) []"
  have len: "length (widened raw) = min 12 (length (narrow raw) + length ?more)"
    by (simp add: widened_def widened_after_stable_narrow [OF assms(1)] min_def)
  show "length (narrow raw) \<le> length (widened raw)"
    using len assms(2) by simp
  have "length (narrow raw) < length (widened raw) \<longleftrightarrow> ?more \<noteq> []"
    using len assms(2) by (cases ?more) simp_all
  then show "length (narrow raw) < length (widened raw) \<longleftrightarrow> brings_new_key raw"
    by (simp only: informative_adds_iff)
qed

text \<open>The pipeline on the example lists, computed once.\<close>

lemma rank_three_jobs:
  "narrow [job_plain, job_java, job_gupy] = map tag_relevant [job_gupy, job_java, job_plain]
   \<and> rank [job_plain, job_java, job_gupy] = map tag_relevant [job_gupy, job_java]"
  by code_simp

lemma rank_job_and_off_topic:
  "narrow [job_plain, off_topic] = [tag_relevant job_plain]
   \<and> rank [job_plain, off_topic] = [tag_relevant job_plain, tag_informative off_topic]"
  by code_simp

text \<open>With nothing to add, the widened list is the narrow one.\<close>

lemma rank_single_job:
  "narrow [job_plain] = [tag_relevant job_plain] \<and> rank [job_plain] = [tag_relevant job_plain]"
  by code_simp

lemma dedupe_narrow_job_and_off_topic:
  "dedupe [tag_relevant job_plain] = [tag_relevant job_plain]"
  by code_simp

lemma tag_informative_job_java:
  "tag_informative job_java =
     \<lparr>title = ''estagio java'', url = ''a.com/1'', description = [],
      tags = \<lparr>techs = [''java''], cities = []\<rparr>, score = 1\<rparr>"
  by code_simp

lemma domainScore_job_java: "domainScore ''a.com/1'' = 1"
  by code_simp

lemma brings_new_key_job_and_off_topic: "brings_new_key [job_plain, off_topic]"
  by code_simp

lemma no_new_key_single_job: "\<not> brings_new_key [job_plain]"
  by code_simp

text \<open>
  C3, as the code has it. For every raw list whose narrow list has fewer than 5 items,
  the pipeline returns the widened list, which has at most 12 entries. Whenever
  \<open>dedupe\<close> leaves the sorted narrow list as it is, the returned list has at least as
  many entries as the narrow list, and it has more entries exactly when some raw item
  with url and title brings a lowercased url or a lowercased title that no narrow item
  has.
\<close>

theorem rank_widens_when_narrow_is_short:
  assumes "length (narrow raw) < 5"
  shows "rank raw = widened raw \<and> length (rank raw) \<le> 12
         \<and> (dedupe (narrow raw) = narrow raw \<longrightarrow>
              length (narrow raw) \<le> length (rank raw)
              \<and> (length (narrow raw) < length (rank raw) \<longleftrightarrow> brings_new_key raw))"
  using assms rank_fallback [of raw] length_widened [of raw] narrow_kept_when_stable [of raw]
  by simp

theorem rank_widens_when_narrow_is_short_witness:
  "length (narrow [job_plain, off_topic]) < 5
   \<and> dedupe (narrow [job_plain, off_topic]) = narrow [job_plain, off_topic]
   \<and> brings_new_key [job_plain, off_topic]
   \<and> rank [job_plain, off_topic] = widened [job_plain, off_topic]
   \<and> length (rank [job_plain, off_topic]) \<le> 12
   \<and> length (narrow [job_plain, off_topic]) < length (rank [job_plain, off_topic])
   \<and> length (narrow [job_plain]) < 5
   \<and> dedupe (narrow [job_plain]) = narrow [job_plain]
   \<and> \<not> brings_new_key [job_plain]
   \<and> length (rank [job_plain]) = length (narrow [job_plain])"
proof -
  have short: "length (narrow [job_plain, off_topic]) < 5"
    by (simp add: rank_job_and_off_topic)
  have stable: "dedupe (narrow [job_plain, off_topic]) = narrow [job_plain, off_topic]"
    by (simp add: rank_job_and_off_topic dedupe_narrow_job_and_off_topic)
  note main = rank_widens_when_narrow_is_short [OF short]
  have fallback: "rank [job_plain, off_topic] = widened [job_plain, off_topic]"
    using main by blast
  have capped: "length (rank [job_plain, off_topic]) \<le> 12"
    using main by blast
  have more: "length (narrow [job_plain, off_topic]) < length (rank [job_plain, off_topic])"
    using main stable brings_new_key_job_and_off_topic by blast
  have short1: "length (narrow [job_plain]) < 5"
    by (simp add: rank_single_job)
  have stable1: "dedupe (narrow [job_plain]) = narrow [job_plain]"
    by (simp add: rank_single_job dedupe_narrow_job_and_off_topic)
  have "\<not> length (narrow [job_plain]) < length (rank [job_plain])"
    using rank_widens_when_narrow_is_short [OF short1] stable1 no_new_key_single_job by blast
  moreover have "length (narrow [job_plain]) \<le> length (rank [job_plain])"
    using rank_widens_when_narrow_is_short [OF short1] stable1 by blast
  ultimately have same: "length (rank [job_plain]) = length (narrow [job_plain])"
    by simp
  show ?thesis
    using short stable brings_new_key_job_and_off_topic fallback capped more
      short1 stable1 no_new_key_single_job same
    by blast
qed

text \<open>
  C3 as stated fails: three relevant items pass the narrow path, the narrow list is
  shorter than 5, and the pipeline returns two entries, not more than three and fewer
  than three. Sorting moves the item that repeats the url of one and the title of the
  other behind both, where the second \<open>dedupe\<close> drops it.
\<close>

theorem rank_widening_counterexample:
  "length (narrow [job_plain, job_java, job_gupy]) < 5
   \<and> \<not> length (narrow [job_plain, job_java, job_gupy]) < length (rank [job_plain, job_java, job_gupy])
   \<and> length (rank [job_plain, job_java, job_gupy]) < length (narrow [job_plain, job_java, job_gupy])"
  by (simp add: rank_three_jobs)

text \<open>
  C4, as the code has it. Every item of the recomputed informative list carries the tags
  of its title and description, and its score is \<open>domainScore\<close> of its url alone: the
  two tag bonuses of the narrow path are not added.
\<close>

theorem informative_scored_by_domain_only:
  "\<forall>r\<in>set (informative raw).
     tags r = extractTags (title r @ '' '' @ description r) \<and> score r = domainScore (url r)
     \<and> has_url_and_title r"
  by (auto simp add: informative_def tag_informative_def has_url_and_title_def)

theorem informative_scored_by_domain_only_witness:
  "tag_informative job_java \<in> set (informative [job_java])
   \<and> tags (tag_informative job_java) = \<lparr>techs = [''java''], cities = []\<rparr>
   \<and> score (tag_informative job_java) = domainScore (url (tag_informative job_java))
   \<and> score (tag_informative job_java) = 1"
proof -
  have member: "tag_informative job_java \<in> set (informative [job_java])"
    by (simp add: informative_def has_url_and_title_def job_java_def)
  show ?thesis
    using informative_scored_by_domain_only [of "[job_java]"] member
    by (auto simp add: tag_informative_job_java)
qed

text \<open>
  C4 as stated fails: the informative item made from the Java internship has a tech tag
  and score 1, where the scoring rule of the narrow path gives 1 + 1 + 0.
\<close>

theorem informative_score_counterexample:
  "hd (informative [job_java]) \<in> set (informative [job_java])
   \<and> techs (tags (hd (informative [job_java]))) = [''java'']
   \<and> score (hd (informative [job_java]))
       \<noteq> domainScore (url (hd (informative [job_java])))
           + (if techs (tags (hd (informative [job_java]))) \<noteq> [] then 1 else 0)
           + (if cities (tags (hd (informative [job_java]))) \<noteq> [] then 1 else 0)"
proof -
  have "informative [job_java] = [tag_informative job_java]"
    by (simp add: informative_def has_url_and_title_def job_java_def)
  then show ?thesis
    by (simp add: tag_informative_job_java domainScore_job_java)
qed

text \<open>
  C7. Every tagged result the pipeline makes, on the narrow path and on the widened
  path, and so every result it returns, has a score from 0 to 5.
\<close>

theorem score_in_range:
  "\<forall>r\<in>set (narrow raw) \<union> set (informative raw) \<union> set (widened raw) \<union> set (rank raw).
     0 \<le> score r \<and> score r \<le> 5"
proof
  fix r
  assume "r \<in> set (narrow raw) \<union> set (informative raw) \<union> set (widened raw) \<union> set (rank raw)"
  then have "r \<in> set (narrow raw) \<union> set (informative raw)"
    using set_widened [of raw] set_rank [of raw] by blast
  then obtain it where "r = tag_relevant it \<or> r = tag_informative it"
    by (rule produced_cases)
  then show "0 \<le> score r \<and> score r \<le> 5"
    using score_tag_relevant [of it] score_tag_informative [of it] by blast
qed

theorem score_in_range_witness:
  "tag_relevant job_gupy \<in> set (rank [job_plain, job_java, job_gupy])
   \<and> 0 \<le> score (tag_relevant job_gupy) \<and> score (tag_relevant job_gupy) \<le> 5"
proof -
  have "tag_relevant job_gupy \<in> set (rank [job_plain, job_java, job_gupy])"
    by (simp add: rank_three_jobs)
  then show ?thesis
    using score_in_range [of "[job_plain, job_java, job_gupy]"] by blast
qed

text \<open>
  C10. Every item of the list the search operation returns, from the narrow path or from
  the widened one, has a non-empty title and a non-empty url.
\<close>

theorem search_results_have_title_and_url:
  assumes "search google duck = Json code (Results rs)"
  shows "\<forall>r\<in>set rs. title r \<noteq> [] \<and> url r \<noteq> []"
proof
  fix r
  assume r: "r \<in> set rs"
  from assms obtain raw where "rs = rank raw"
    by (auto simp add: search_def respond_def Let_def
          split: outcome.splits option.splits if_splits)
  with r have "r \<in> set (narrow raw) \<union> set (informative raw)"
    using set_rank [of raw] by blast
  then obtain it where "has_url_and_title it" and "r = tag_relevant it \<or> r = tag_informative it"
    by (rule produced_cases)
  then show "title r \<noteq> [] \<and> url r \<noteq> []"
    by (auto simp add: has_url_and_title_def tag_relevant_def tag_informative_def Let_def)
qed

theorem search_results_have_title_and_url_witness:
  "search Throws (Returns [job_plain, off_topic])
     = Json 200 (Results [tag_relevant job_plain, tag_informative off_topic])
   \<and> title (tag_informative off_topic) \<noteq> [] \<and> url (tag_informative off_topic) \<noteq> []"
proof -
  have response: "search Throws (Returns [job_plain, off_topic])
      = Json 200 (Results [tag_relevant job_plain, tag_informative off_topic])"
    by (simp add: search_def respond_def rank_job_and_off_topic)
  show ?thesis
    using search_results_have_title_and_url [OF response] response by simp
qed

section \<open>Lowercase text and the regular expressions\<close>

lemma lower_char_fixed_iff:
  "lower_char c = c \<longleftrightarrow>
     \<not> ((65 \<le> (of_char c :: nat) \<and> (of_char c :: nat) \<le> 90)
        \<or> (192 \<le> (of_char c :: nat) \<and> (of_char c :: nat) \<le> 222 \<and> (of_char c :: nat) \<noteq> 215))"
proof -
  have "char_of ((of_char c :: nat) + 32) \<noteq> c" if "(of_char c :: nat) \<le> 222"
  proof
    assume "char_of ((of_char c :: nat) + 32) = c"
    then have "(of_char (char_of ((of_char c :: nat) + 32)) :: nat) = of_char c"
      by simp
    then show False
      using that by simp
  qed
  then show ?thesis
    by (auto simp add: lower_char_def Let_def)
qed

lemma lower_char_idem: "lower_char (lower_char c) = lower_char c"
proof (cases "lower_char c = c")
  case True
  then show ?thesis by simp
next
  case False
  then have range: "(65 \<le> (of_char c :: nat) \<and> (of_char c :: nat) \<le> 90)
      \<or> (192 \<le> (of_char c :: nat) \<and> (of_char c :: nat) \<le> 222 \<and> (of_char c :: nat) \<noteq> 215)"
    by (auto simp add: lower_char_fixed_iff)
  then have moved: "lower_char c = char_of ((of_char c :: nat) + 32)"
    by (simp add: lower_char_def Let_def)
  have "(of_char (char_of ((of_char c :: nat) + 32)) :: nat) = of_char c + 32"
    using range by auto
  then show ?thesis
    unfolding moved using range by (subst lower_char_fixed_iff) auto
qed

lemma lowered_toLowerCase: "lowered (toLowerCase s)"
  by (simp add: lowered_def toLowerCase_def lower_char_idem)

lemma canonical_form_injective:
  fixes n m :: nat
  assumes "n < 256" and "m < 256"
    and "\<not> ((65 \<le> n \<and> n \<le> 90) \<or> (192 \<le> n \<and> n \<le> 222 \<and> n \<noteq> 215))"
    and "\<not> ((65 \<le> m \<and> m \<le> 90) \<or> (192 \<le> m \<and> m \<le> 222 \<and> m \<noteq> 215))"
    and "(if (97 \<le> n \<and> n \<le> 122) \<or> (224 \<le> n \<and> n \<le> 254 \<and> n \<noteq> 247) then n - 32
          else if n = 255 then 376 else if n = 181 then 924 else n)
       = (if (97 \<le> m \<and> m \<le> 122) \<or> (224 \<le> m \<and> m \<le> 254 \<and> m \<noteq> 247) then m - 32
          else if m = 255 then 376 else if m = 181 then 924 else m)"
  shows "n = m"
proof -
  define canon :: "nat \<Rightarrow> nat" where
    "canon k = (if (97 \<le> k \<and> k \<le> 122) \<or> (224 \<le> k \<and> k \<le> 254 \<and> k \<noteq> 247) then k - 32
                else if k = 255 then 376 else if k = 181 then 924 else k)" for k
  define uncanon :: "nat \<Rightarrow> nat" where
    "uncanon k = (if (65 \<le> k \<and> k \<le> 90) \<or> (192 \<le> k \<and> k \<le> 222 \<and> k \<noteq> 215) then k + 32
                  else if k = 376 then 255 else if k = 924 then 181 else k)" for k
  have inverse: "uncanon (canon k) = k"
    if "k < 256" and "\<not> ((65 \<le> k \<and> k \<le> 90) \<or> (192 \<le> k \<and> k \<le> 222 \<and> k \<noteq> 215))" for k
    using that unfolding canon_def uncanon_def by auto
  have "canon n = canon m"
    using assms(5) by (simp only: canon_def)
  then have "uncanon (canon n) = uncanon (canon m)"
    by simp
  then show ?thesis
    using inverse [OF assms(1,3)] inverse [OF assms(2,4)] by simp
qed

lemma canonicalize_lowered:
  assumes "lower_char c = c" and "lower_char d = d"
  shows "canonicalize True c = canonicalize True d \<longleftrightarrow> c = d"
proof
  assume eq: "canonicalize True c = canonicalize True d"
  have "(of_char c :: nat) = of_char d"
  proof (rule canonical_form_injective)
    show "(of_char c :: nat) < 256" and "(of_char d :: nat) < 256"
      by simp_all
    show "\<not> ((65 \<le> (of_char c :: nat) \<and> (of_char c :: nat) \<le> 90)
        \<or> (192 \<le> (of_char c :: nat) \<and> (of_char c :: nat) \<le> 222 \<and> (of_char c :: nat) \<noteq> 215))"
      using assms(1) unfolding lower_char_fixed_iff .
    show "\<not> ((65 \<le> (of_char d :: nat) \<and> (of_char d :: nat) \<le> 90)
        \<or> (192 \<le> (of_char d :: nat) \<and> (of_char d :: nat) \<le> 222 \<and> (of_char d :: nat) \<noteq> 215))"
      using assms(2) unfolding lower_char_fixed_iff .
    show "(if (97 \<le> (of_char c :: nat) \<and> (of_char c :: nat) \<le> 122)
              \<or> (224 \<le> (of_char c :: nat) \<and> (of_char c :: nat) \<le> 254 \<and> (of_char c :: nat) \<noteq> 247)
           then (of_char c :: nat) - 32
           else if (of_char c :: nat) = 255 then 376 else if (of_char c :: nat) = 181 then 924
           else of_char c)
        = (if (97 \<le> (of_char d :: nat) \<and> (of_char d :: nat) \<le> 122)
              \<or> (224 \<le> (of_char d :: nat) \<and> (of_char d :: nat) \<le> 254 \<and> (of_char d :: nat) \<noteq> 247)
           then (of_char d :: nat) - 32
           else if (of_char d :: nat) = 255 then 376 else if (of_char d :: nat) = 181 then 924
           else of_char d)"
      using eq by (simp only: canonicalize_def Let_def simp_thms if_True if_False)
  qed
  then show "c = d"
    by simp
next
  assume "c = d"
  then show "canonicalize True c = canonicalize True d"
    by simp
qed

lemma canonicalize_case_sensitive: "canonicalize False c = canonicalize False d \<longleftrightarrow> c = d"
  by (simp add: canonicalize_def)

lemma match_here_lit:
  assumes "\<forall>c\<in>set k. \<forall>d\<in>set s. (canonicalize ic c = canonicalize ic d) = (c = d)"
  shows "match_here ic (lit k @ ps) s \<longleftrightarrow> (\<exists>rest. s = k @ rest \<and> match_here ic ps rest)"
  using assms
proof (induction k arbitrary: s)
  case Nil
  show ?case by (simp add: lit_def)
next
  case (Cons c k)
  show ?case
  proof (cases s)
    case Nil
    then show ?thesis by (simp add: lit_def)
  next
    case (Cons d ds)
    have "match_here ic (lit k @ ps) ds \<longleftrightarrow> (\<exists>rest. ds = k @ rest \<and> match_here ic ps rest)"
      using Cons.prems Cons by (intro Cons.IH) simp
    moreover have "(canonicalize ic c = canonicalize ic d) = (c = d)"
      using Cons.prems Cons by simp
    ultimately show ?thesis
      using Cons by (auto simp add: lit_def)
  qed
qed

lemma match_here_ws:
  "match_here ic (WsStar # ps) s \<longleftrightarrow>
     (\<exists>ws rest. s = ws @ rest \<and> (\<forall>c\<in>set ws. is_space c) \<and> match_here ic ps rest)"
proof (induction s)
  case Nil
  show ?case by simp
next
  case (Cons d ds)
  show ?case
  proof
    assume "match_here ic (WsStar # ps) (d # ds)"
    then consider "is_space d" and "match_here ic (WsStar # ps) ds" | "match_here ic ps (d # ds)"
      by auto
    then show "\<exists>ws rest. d # ds = ws @ rest \<and> (\<forall>c\<in>set ws. is_space c) \<and> match_here ic ps rest"
    proof cases
      case 1
      then obtain ws rest where "ds = ws @ rest" and "\<forall>c\<in>set ws. is_space c"
        and "match_here ic ps rest"
        using Cons.IH by blast
      with 1 have "d # ds = (d # ws) @ rest \<and> (\<forall>c\<in>set (d # ws). is_space c)
          \<and> match_here ic ps rest"
        by simp
      then show ?thesis by blast
    next
      case 2
      then have "d # ds = [] @ (d # ds) \<and> (\<forall>c\<in>set []. is_space c) \<and> match_here ic ps (d # ds)"
        by simp
      then show ?thesis by blast
    qed
  next
    assume "\<exists>ws rest. d # ds = ws @ rest \<and> (\<forall>c\<in>set ws. is_space c) \<and> match_here ic ps rest"
    then obtain ws rest where split: "d # ds = ws @ rest" and spaces: "\<forall>c\<in>set ws. is_space c"
      and rest: "match_here ic ps rest"
      by blast
    show "match_here ic (WsStar # ps) (d # ds)"
    proof (cases ws)
      case Nil
      with split rest have "match_here ic ps (d # ds)" by simp
      then show ?thesis by simp
    next
      case (Cons w ws')
      with split spaces have "is_space d" and "ds = ws' @ rest" and "\<forall>c\<in>set ws'. is_space c"
        by simp_all
      with rest have "match_here ic (WsStar # ps) ds"
        using Cons.IH by blast
      with \<open>is_space d\<close> show ?thesis by simp
    qed
  qed
qed

lemma regex_test_more:
  "regex_test ic (p # q # alts) s \<longleftrightarrow> regex_test ic [p] s \<or> regex_test ic (q # alts) s"
  by (auto simp add: regex_test_def)

lemma regex_test_plain:
  assumes "\<forall>c\<in>set k. \<forall>d\<in>set s. (canonicalize ic c = canonicalize ic d) = (c = d)"
  shows "regex_test ic [lit k] s \<longleftrightarrow> sublist k s"
proof -
  have "match_here ic (lit k) rest \<longleftrightarrow> prefix k rest" if "suffix rest s" for rest
  proof -
    have "\<forall>c\<in>set k. \<forall>d\<in>set rest. (canonicalize ic c = canonicalize ic d) = (c = d)"
      using assms set_mono_suffix [OF that] by blast
    from match_here_lit [OF this, of "[]"] show ?thesis
      by (auto simp add: prefix_def)
  qed
  note at_rest = this
  have "regex_test ic [lit k] s \<longleftrightarrow> (\<exists>rest. suffix rest s \<and> match_here ic (lit k) rest)"
    by (simp add: regex_test_def Bex_def)
  also have "\<dots> \<longleftrightarrow> (\<exists>rest. suffix rest s \<and> prefix k rest)"
    using at_rest by blast
  also have "\<dots> \<longleftrightarrow> sublist k s"
    unfolding sublist_altdef' by blast
  finally show ?thesis .
qed

lemma regex_test_gap:
  assumes "\<forall>c\<in>set (a @ b). \<forall>d\<in>set s. (canonicalize ic c = canonicalize ic d) = (c = d)"
  shows "regex_test ic [lit a @ [WsStar] @ lit b] s \<longleftrightarrow>
           (\<exists>ws. (\<forall>c\<in>set ws. is_space c) \<and> sublist (a @ ws @ b) s)"
proof -
  have "match_here ic (lit a @ [WsStar] @ lit b) rest \<longleftrightarrow>
          (\<exists>ws. (\<forall>c\<in>set ws. is_space c) \<and> prefix (a @ ws @ b) rest)"
    if "suffix rest s" for rest
  proof -
    have exact_a: "\<forall>c\<in>set a. \<forall>d\<in>set rest. (canonicalize ic c = canonicalize ic d) = (c = d)"
      using assms set_mono_suffix [OF that] by auto
    have exact_b: "\<forall>c\<in>set b. \<forall>d\<in>set r. (canonicalize ic c = canonicalize ic d) = (c = d)"
      if "set r \<subseteq> set rest" for r
      using assms set_mono_suffix [OF \<open>suffix rest s\<close>] that by auto
    have "match_here ic (lit a @ [WsStar] @ lit b) rest \<longleftrightarrow>
            (\<exists>r1. rest = a @ r1 \<and> match_here ic (WsStar # lit b) r1)"
      using match_here_lit [OF exact_a, of "[WsStar] @ lit b"] by simp
    also have "\<dots> \<longleftrightarrow> (\<exists>r1 ws r2. rest = a @ r1 \<and> r1 = ws @ r2 \<and> (\<forall>c\<in>set ws. is_space c)
                          \<and> match_here ic (lit b) r2)"
      by (simp add: match_here_ws)
    also have "\<dots> \<longleftrightarrow> (\<exists>ws r2. rest = a @ ws @ r2 \<and> (\<forall>c\<in>set ws. is_space c)
                          \<and> match_here ic (lit b) r2)"
      by blast
    also have "\<dots> \<longleftrightarrow> (\<exists>ws r2. rest = a @ ws @ r2 \<and> (\<forall>c\<in>set ws. is_space c)
                          \<and> prefix b r2)"
    proof -
      have "match_here ic (lit b) r2 \<longleftrightarrow> prefix b r2" if "rest = a @ ws @ r2" for ws r2
      proof -
        have "set r2 \<subseteq> set rest"
          using that by auto
        from match_here_lit [OF exact_b [OF this], of "[]"] show ?thesis
          by (auto simp add: prefix_def)
      qed
      then show ?thesis by blast
    qed
    also have "\<dots> \<longleftrightarrow> (\<exists>ws. (\<forall>c\<in>set ws. is_space c) \<and> prefix (a @ ws @ b) rest)"
      by (auto simp add: prefix_def)
    finally show ?thesis .
  qed
  note at_rest = this
  have "regex_test ic [lit a @ [WsStar] @ lit b] s \<longleftrightarrow>
      (\<exists>rest. suffix rest s \<and> match_here ic (lit a @ [WsStar] @ lit b) rest)"
    by (simp add: regex_test_def Bex_def)
  also have "\<dots> \<longleftrightarrow>
      (\<exists>rest. suffix rest s \<and> (\<exists>ws. (\<forall>c\<in>set ws. is_space c) \<and> prefix (a @ ws @ b) rest))"
    using at_rest by blast
  also have "\<dots> \<longleftrightarrow> (\<exists>ws. (\<forall>c\<in>set ws. is_space c) \<and> sublist (a @ ws @ b) s)"
    unfolding sublist_altdef' by blast
  finally show ?thesis .
qed

lemma exact_lowered:
  assumes "lowered k" and "lowered s"
  shows "\<forall>c\<in>set k. \<forall>d\<in>set s. (canonicalize True c = canonicalize True d) = (c = d)"
  using assms canonicalize_lowered unfolding lowered_def by blast

lemma lowered_append [simp]: "lowered (a @ b) \<longleftrightarrow> lowered a \<and> lowered b"
  by (auto simp add: lowered_def)

lemma lowered_keywords:
  "lowered (''est'' @ [CHR 0xE1] @ ''gio'')" "lowered ''estagio''" "lowered ''internship''"
  "lowered ''desenvolvedor''" "lowered ''desenvolvimento''" "lowered ''developer''"
  "lowered ''programador''" "lowered ''software''" "lowered ''backend''" "lowered ''frontend''"
  "lowered ''qa''" "lowered ''mobile''"
  "lowered ''front''" "lowered ''end''" "lowered ''full''" "lowered ''stack''"
  by (simp_all add: lowered_def lower_char_def)

lemma regex_test_keyword:
  "lowered k \<Longrightarrow> lowered s \<Longrightarrow> regex_test True [lit k] s \<longleftrightarrow> str_includes s k"
  unfolding str_includes_def by (rule regex_test_plain) (rule exact_lowered)

lemma regex_test_compound:
  assumes "lowered a" and "lowered b" and "lowered s"
  shows "regex_test True [lit a @ [WsStar] @ lit b] s \<longleftrightarrow>
           (\<exists>ws. (\<forall>c\<in>set ws. is_space c) \<and> str_includes s (a @ ws @ b))"
  unfolding str_includes_def using assms by (intro regex_test_gap exact_lowered) simp_all

lemma isRelevant_news_item: "isRelevant news_item \<and> \<not> spec_isRelevant news_item"
  by code_simp

text \<open>
  C5, as the code has it. \<open>isRelevant\<close> is true exactly when the lowercased text of
  title, a space and description holds, anywhere and also inside a longer word, one of
  the internship words or one of the development words, or \<open>front\<close> and \<open>end\<close>, or
  \<open>full\<close> and \<open>stack\<close>, with any number of whitespace characters between the two.
\<close>

theorem isRelevant_iff_contains_keyword:
  "isRelevant item \<longleftrightarrow>
     ((\<exists>k\<in>set [''est'' @ [CHR 0xE1] @ ''gio'', ''estagio'', ''internship''].
         str_includes (toLowerCase (title item @ '' '' @ description item)) k)
      \<or> (\<exists>k\<in>set [''desenvolvedor'', ''desenvolvimento'', ''developer'', ''programador'',
                    ''software'', ''backend'', ''frontend'', ''qa'', ''mobile''].
         str_includes (toLowerCase (title item @ '' '' @ description item)) k)
      \<or> (\<exists>ws. (\<forall>c\<in>set ws. is_space c)
            \<and> (str_includes (toLowerCase (title item @ '' '' @ description item))
                   (''front'' @ ws @ ''end'')
               \<or> str_includes (toLowerCase (title item @ '' '' @ description item))
                   (''full'' @ ws @ ''stack''))))"
proof -
  let ?t = "toLowerCase (title item @ '' '' @ description item)"
  note low = lowered_toLowerCase [of "title item @ '' '' @ description item"]
  have intern: "regex_test True intern_alts ?t \<longleftrightarrow>
      (\<exists>k\<in>set [''est'' @ [CHR 0xE1] @ ''gio'', ''estagio'', ''internship'']. str_includes ?t k)"
    unfolding intern_alts_def
    by (simp only: regex_test_more regex_test_keyword [OF _ low] lowered_keywords
          list.set bex_simps insert_iff empty_iff simp_thms ex_simps)
  have dev: "regex_test True dev_alts ?t \<longleftrightarrow>
      ((\<exists>k\<in>set [''desenvolvedor'', ''desenvolvimento'', ''developer'', ''programador'',
                   ''software'', ''backend'', ''frontend'', ''qa'', ''mobile'']. str_includes ?t k)
       \<or> (\<exists>ws. (\<forall>c\<in>set ws. is_space c)
             \<and> (str_includes ?t (''front'' @ ws @ ''end'')
                \<or> str_includes ?t (''full'' @ ws @ ''stack''))))"
    unfolding dev_alts_def
    by (simp only: regex_test_more regex_test_keyword [OF _ low]
          regex_test_compound [OF _ _ low] lowered_keywords
          list.set bex_simps insert_iff empty_iff simp_thms ex_simps, blast?)
  show ?thesis
    unfolding isRelevant_def Let_def intern dev by blast
qed

theorem isRelevant_iff_contains_keyword_witness:
  "isRelevant news_item
   \<and> str_includes (toLowerCase (title news_item @ '' '' @ description news_item)) ''qa''"
proof -
  have "str_includes (toLowerCase (title news_item @ '' '' @ description news_item)) ''qa''"
    by code_simp
  then show ?thesis
    using isRelevant_iff_contains_keyword [of news_item] by simp
qed

text \<open>
  C5 as stated fails: \<open>Qatar news\<close> holds \<open>qa\<close> only as the start of a longer word and
  no other keyword. \<open>isRelevant\<close> accepts it; under the token reading of the
  specification it is not relevant.
\<close>

theorem isRelevant_token_counterexample:
  "isRelevant \<lparr>title = ''Qatar news'', url = ''b.com'', description = []\<rparr>
   \<and> \<not> spec_isRelevant \<lparr>title = ''Qatar news'', url = ''b.com'', description = []\<rparr>"
  using isRelevant_news_item by (simp add: news_item_def)

section \<open>The Domain Scorer\<close>

lemma regex_test_duckduckgo:
  "regex_test False [lit ''duckduckgo.com''] s \<longleftrightarrow> str_includes s ''duckduckgo.com''"
  unfolding str_includes_def
  by (rule regex_test_plain) (simp add: canonicalize_case_sensitive)

text \<open>
  C6. \<open>domainScore\<close> is 3 when the lowercased url holds one of the job-board strings,
  otherwise 0 when it holds \<open>duckduckgo.com\<close>, and 1 for every other url: the three
  cases in the order of section 4.3 of the specification. So it is 3 exactly for the
  urls with a job-board string, 0 exactly for the urls without one that hold
  \<open>duckduckgo.com\<close>, and 1 exactly for the rest.
\<close>

theorem domainScore_by_substring:
  "domainScore u =
     (if \<exists>d\<in>set boosts. str_includes (toLowerCase u) d then 3
      else if str_includes (toLowerCase u) ''duckduckgo.com'' then 0
      else 1)
   \<and> (domainScore u = 3 \<longleftrightarrow> (\<exists>d\<in>set boosts. str_includes (toLowerCase u) d))
   \<and> (domainScore u = 0 \<longleftrightarrow>
        \<not> (\<exists>d\<in>set boosts. str_includes (toLowerCase u) d)
        \<and> str_includes (toLowerCase u) ''duckduckgo.com'')
   \<and> (domainScore u = 1 \<longleftrightarrow>
        \<not> (\<exists>d\<in>set boosts. str_includes (toLowerCase u) d)
        \<and> \<not> str_includes (toLowerCase u) ''duckduckgo.com'')"
  unfolding domainScore_def Let_def regex_test_duckduckgo by simp

theorem domainScore_by_substring_witness:
  "domainScore ''Jobs.GUPY.io/1'' = 3 \<and> domainScore ''DuckDuckGo.com/x'' = 0
   \<and> domainScore ''a.com/1'' = 1
   \<and> str_includes (toLowerCase ''DuckDuckGo.com/x'') ''duckduckgo.com''"
proof -
  have gupy: "\<exists>d\<in>set boosts. str_includes (toLowerCase ''Jobs.GUPY.io/1'') d"
    by code_simp
  have duck: "\<not> (\<exists>d\<in>set boosts. str_includes (toLowerCase ''DuckDuckGo.com/x'') d)
      \<and> str_includes (toLowerCase ''DuckDuckGo.com/x'') ''duckduckgo.com''"
    by code_simp
  have other: "\<not> (\<exists>d\<in>set boosts. str_includes (toLowerCase ''a.com/1'') d)
      \<and> \<not> str_includes (toLowerCase ''a.com/1'') ''duckduckgo.com''"
    by code_simp
  show ?thesis
    using domainScore_by_substring [of "''Jobs.GUPY.io/1''"]
      domainScore_by_substring [of "''DuckDuckGo.com/x''"]
      domainScore_by_substring [of "''a.com/1''"] gupy duck other
    by blast
qed

text \<open>The first case wins where a url holds a job-board string and \<open>duckduckgo.com\<close>.\<close>

lemma domainScore_job_board_first:
  "str_includes (toLowerCase ''duckduckgo.com/?q=gupy.io'') ''duckduckgo.com''
   \<and> domainScore ''duckduckgo.com/?q=gupy.io'' = 3"
  by code_simp

section \<open>The refine operation\<close>

lemma map_filter_Some [simp]: "List.map_filter (\<lambda>r. r) (map Some rs) = rs"
  by (induction rs) (simp_all add: map_filter_simps)

lemma localSummary_one_result_starts:
  "localSummary one_result \<noteq> Undetermined
   \<and> take 34 (text_of (localSummary one_result)) = units ''Tecnologias mais citadas: java (1)''"
  by code_simp

text \<open>Keys that are array indices come first, by number, whenever they were inserted.\<close>

lemma localSummary_numbered_tags:
  "take 59 (text_of (localSummary numbered_tags))
     = units ''Tecnologias mais citadas: 2 (1), 10 (1), java (1), 007 (1).''"
  by code_simp

text \<open>
  C9, as the code has it. With a non-empty array of results that holds no \<^verbatim>\<open>null\<close>
  and with a credential, a call that throws, or an answer without text, makes
  \<open>refine\<close> answer status 200 with the summary of the Local Summarizer for these
  results. With a non-empty array and no credential (unset or empty) \<open>refine\<close> answers
  status 400 with the credential error, whatever the collaborator would do. With a
  missing or empty array it answers status 400 with the error for missing results,
  whatever the credential.
\<close>

theorem refine_falls_back_when_call_fails:
  "(rs \<noteq> [] \<and> key \<noteq> [] \<longrightarrow>
      refine (Some (map Some rs)) (Some key) Throws = Json 200 (Resumo (localSummary rs))
      \<and> refine (Some (map Some rs)) (Some key) (Returns None)
          = Json 200 (Resumo (localSummary rs))
      \<and> refine (Some (map Some rs)) (Some key) (Returns (Some []))
          = Json 200 (Resumo (localSummary rs)))
   \<and> (items \<noteq> [] \<longrightarrow>
      refine (Some items) None gemini
        = Json 400 (Erro (''Gemini API Key n'' @ [CHR 0xE3] @ ''o configurada''))
      \<and> refine (Some items) (Some []) gemini
        = Json 400 (Erro (''Gemini API Key n'' @ [CHR 0xE3] @ ''o configurada'')))
   \<and> refine None apiKey gemini = Json 400 (Erro ''Sem resultados para refinar'')
   \<and> refine (Some []) apiKey gemini = Json 400 (Erro ''Sem resultados para refinar'')"
  by (simp add: refine_def)

theorem refine_falls_back_when_call_fails_witness:
  "refine (Some (map Some one_result)) (Some ''k'') Throws
     = Json 200 (Resumo (localSummary one_result))
   \<and> refine (Some (map Some one_result)) (Some ''k'') (Returns None)
       = Json 200 (Resumo (localSummary one_result))
   \<and> localSummary one_result \<noteq> Undetermined
   \<and> take 34 (text_of (localSummary one_result)) = units ''Tecnologias mais citadas: java (1)''
   \<and> refine (Some (map Some one_result)) None Throws
       = Json 400 (Erro (''Gemini API Key n'' @ [CHR 0xE3] @ ''o configurada''))
   \<and> refine (Some []) None Throws = Json 400 (Erro ''Sem resultados para refinar'')"
proof -
  have results: "one_result \<noteq> []"
    by (simp add: one_result_def)
  have items: "map Some one_result \<noteq> []"
    using results by simp
  have key: "''k'' \<noteq> []"
    by simp
  note main = refine_falls_back_when_call_fails
    [of one_result "''k''" "map Some one_result" Throws None]
  have "refine (Some (map Some one_result)) (Some ''k'') Throws
        = Json 200 (Resumo (localSummary one_result))
      \<and> refine (Some (map Some one_result)) (Some ''k'') (Returns None)
        = Json 200 (Resumo (localSummary one_result))"
    using main results key by blast
  moreover have "refine (Some (map Some one_result)) None Throws
      = Json 400 (Erro (''Gemini API Key n'' @ [CHR 0xE3] @ ''o configurada''))"
    using main items by blast
  moreover have "refine (Some []) None Throws = Json 400 (Erro ''Sem resultados para refinar'')"
    using main by blast
  ultimately show ?thesis
    using localSummary_one_result_starts by blast
qed

text \<open>
  C9 as stated fails: without the credential the answer is the error of line 195, not
  the local summary, also when the call would fail.
\<close>

theorem refine_missing_key_counterexample:
  "refine (Some (map Some one_result)) None Throws
     = Json 400 (Erro (''Gemini API Key n'' @ [CHR 0xE3] @ ''o configurada''))
   \<and> refine (Some (map Some one_result)) None Throws
       \<noteq> Json 200 (Resumo (localSummary one_result))"
  by (simp add: refine_def one_result_def)

text \<open>A \<^verbatim>\<open>null\<close> element, with a credential, throws before the \<^verbatim>\<open>try\<close>.\<close>

lemma refine_null_element:
  "refine (Some [None]) (Some ''k'') gemini = Uncaught"
  by (simp add: refine_def)

text \<open>A tag that names a property of \<^verbatim>\<open>Object.prototype\<close> leaves the summary open.\<close>

lemma localSummary_inherited_tag:
  "localSummary
     [\<lparr>title = ''t'', url = ''u'', description = [],
       tags = \<lparr>techs = [''constructor''], cities = []\<rparr>, score = 1\<rparr>] = Undetermined"
  by code_simp

end
